theory Spec2Isabelle
  imports Complex_Main
begin

section \<open>Conway's Game of Life: the simulation core of life.py\<close>

text \<open>
  The development embeds the helper functions of \<^verbatim>\<open>life.py\<close>: \<^verbatim>\<open>create_board\<close>,
  \<^verbatim>\<open>count_live_neighbors\<close>, \<^verbatim>\<open>next_board_state\<close>, \<^verbatim>\<open>random_fill_board\<close>,
  \<^verbatim>\<open>save_pattern\<close> and \<^verbatim>\<open>load_pattern\<close>.

  A board is a Python list of lists of integers. Lists are mutable objects, so the model
  works on an explicit store of list objects: a row is an object holding integers, a board
  is an object holding references to rows. A function that allocates or writes takes the
  store and returns the new one. Exceptions are values of \<open>py_error\<close>.
\<close>

subsection \<open>Exceptions and list indexing\<close>

datatype py_error = IndexError | ValueError | FileNotFoundError

text \<open>\<^verbatim>\<open>xs[i]\<close>: a negative index counts from the end, an index out of range raises.\<close>

definition list_getitem :: "'a list \<Rightarrow> int \<Rightarrow> py_error + 'a" where
  "list_getitem xs i =
     (let n = int (length xs); j = (if i < 0 then i + n else i)
      in if 0 \<le> j \<and> j < n then Inr (xs ! nat j) else Inl IndexError)"

text \<open>\<^verbatim>\<open>xs[i] = v\<close>, returning the list after the assignment.\<close>

definition list_setitem :: "'a list \<Rightarrow> int \<Rightarrow> 'a \<Rightarrow> py_error + 'a list" where
  "list_setitem xs i v =
     (let n = int (length xs); j = (if i < 0 then i + n else i)
      in if 0 \<le> j \<and> j < n then Inr (xs[nat j := v]) else Inl IndexError)"

text \<open>
  A \<^verbatim>\<open>for\<close> loop over a list of values whose body may raise: the state is threaded through
  the iterations, and the first exception ends the loop.
\<close>

fun for_each :: "'i list \<Rightarrow> ('i \<Rightarrow> 's \<Rightarrow> py_error + 's) \<Rightarrow> 's \<Rightarrow> py_error + 's" where
  "for_each [] body s = Inr s"
| "for_each (i # rest) body s =
     (case body i s of Inl e \<Rightarrow> Inl e | Inr s' \<Rightarrow> for_each rest body s')"

text \<open>\<^verbatim>\<open>range(n)\<close> for an integer \<open>n\<close>: empty when \<open>n \<le> 0\<close>.\<close>

definition py_range :: "int \<Rightarrow> nat list" where
  "py_range n = [0..<nat n]"

subsection \<open>The store of list objects\<close>

text \<open>
  An object's address is its position in the store, so a new object never takes the
  place of an old one, and the addresses in use are those below the length.
\<close>

record store =
  row_objs :: "int list list"
  grid_objs :: "nat list list"

definition empty_store :: store where
  "empty_store = \<lparr>row_objs = [], grid_objs = []\<rparr>"

definition new_row :: "store \<Rightarrow> int list \<Rightarrow> store \<times> nat" where
  "new_row s xs = (s\<lparr>row_objs := row_objs s @ [xs]\<rparr>, length (row_objs s))"

definition new_grid :: "store \<Rightarrow> nat list \<Rightarrow> store \<times> nat" where
  "new_grid s as = (s\<lparr>grid_objs := grid_objs s @ [as]\<rparr>, length (grid_objs s))"

text \<open>The contents of the board at address \<open>g\<close>, row by row.\<close>

definition board_of :: "store \<Rightarrow> nat \<Rightarrow> int list list" where
  "board_of s g = map (\<lambda>a. row_objs s ! a) (grid_objs s ! g)"

text \<open>
  The board at \<open>g\<close> is an object of the store whose rows are objects of the store.
\<close>

definition valid_board :: "store \<Rightarrow> nat \<Rightarrow> bool" where
  "valid_board s g \<longleftrightarrow>
     g < length (grid_objs s) \<and> list_all (\<lambda>a. a < length (row_objs s)) (grid_objs s ! g)"

text \<open>
  A rectangular grid: at least one row, and every row as long as the first.
\<close>

definition rectangular :: "int list list \<Rightarrow> bool" where
  "rectangular B \<longleftrightarrow> B \<noteq> [] \<and> list_all (\<lambda>row. length row = length (hd B)) B"

subsection \<open>create_board\<close>

text \<open>
  \<^verbatim>\<open>[[0 for _ in range(width)] for _ in range(height)]\<close>: the outer comprehension creates
  one new row object per iteration, then the board object holding them.
\<close>

fun alloc_rows :: "store \<Rightarrow> int \<Rightarrow> nat list \<Rightarrow> store \<times> nat list" where
  "alloc_rows s width [] = (s, [])"
| "alloc_rows s width (i # rest) =
     (let (s1, a) = new_row s (map (\<lambda>_. 0) (py_range width));
          (s2, as) = alloc_rows s1 width rest
      in (s2, a # as))"

definition create_board :: "store \<Rightarrow> int \<Rightarrow> int \<Rightarrow> store \<times> nat" where
  "create_board s width height =
     (let (s1, as) = alloc_rows s width (py_range height) in new_grid s1 as)"

subsection \<open>Reading and writing cells\<close>

text \<open>\<^verbatim>\<open>rows, cols = len(board), len(board[0])\<close>: an empty board raises on \<^verbatim>\<open>board[0]\<close>.\<close>

definition board_dims :: "store \<Rightarrow> nat \<Rightarrow> py_error + (int \<times> int)" where
  "board_dims s g =
     (case list_getitem (grid_objs s ! g) 0 of
        Inl e \<Rightarrow> Inl e
      | Inr a \<Rightarrow> Inr (int (length (grid_objs s ! g)), int (length (row_objs s ! a))))"

text \<open>\<^verbatim>\<open>board[r][c]\<close>\<close>

definition cell_read :: "store \<Rightarrow> nat \<Rightarrow> int \<Rightarrow> int \<Rightarrow> py_error + int" where
  "cell_read s g r c =
     (case list_getitem (grid_objs s ! g) r of
        Inl e \<Rightarrow> Inl e
      | Inr a \<Rightarrow> list_getitem (row_objs s ! a) c)"

text \<open>\<^verbatim>\<open>board[r][c] = v\<close>: the row object that \<^verbatim>\<open>board[r]\<close> refers to is updated in place.\<close>

definition cell_write :: "store \<Rightarrow> nat \<Rightarrow> int \<Rightarrow> int \<Rightarrow> int \<Rightarrow> py_error + store" where
  "cell_write s g r c v =
     (case list_getitem (grid_objs s ! g) r of
        Inl e \<Rightarrow> Inl e
      | Inr a \<Rightarrow>
          (case list_setitem (row_objs s ! a) c v of
             Inl e \<Rightarrow> Inl e
           | Inr row \<Rightarrow> Inr (s\<lparr>row_objs := (row_objs s)[a := row]\<rparr>)))"

subsection \<open>count_live_neighbors\<close>

text \<open>\<^verbatim>\<open>range(a, b)\<close>\<close>

definition py_range_from :: "int \<Rightarrow> int \<Rightarrow> int list" where
  "py_range_from a b = [a..b - 1]"

text \<open>
  The body of the inner loop for one offset \<open>(i, j)\<close>; the state is \<^verbatim>\<open>live_neighbors\<close>.
  Python's \<^verbatim>\<open>and\<close> reads \<^verbatim>\<open>board[nr][nc]\<close> only after the bounds tests have passed.
\<close>

definition neighbor_step ::
  "store \<Rightarrow> nat \<Rightarrow> int \<Rightarrow> int \<Rightarrow> int \<Rightarrow> int \<Rightarrow> int \<Rightarrow> int \<Rightarrow> int \<Rightarrow> py_error + int" where
  "neighbor_step s board rows cols r c i j live_neighbors =
     (if i = 0 \<and> j = 0 then Inr live_neighbors
      else
        (let nr = r + i; nc = c + j
         in if 0 \<le> nr \<and> nr < rows \<and> 0 \<le> nc \<and> nc < cols then
              (case cell_read s board nr nc of
                 Inl e \<Rightarrow> Inl e
               | Inr v \<Rightarrow> Inr (if v = 1 then live_neighbors + 1 else live_neighbors))
            else Inr live_neighbors))"

definition count_live_neighbors :: "store \<Rightarrow> nat \<Rightarrow> int \<Rightarrow> int \<Rightarrow> py_error + int" where
  "count_live_neighbors s board r c =
     (case board_dims s board of
        Inl e \<Rightarrow> Inl e
      | Inr (rows, cols) \<Rightarrow>
          for_each (py_range_from (- 1) 2)
            (\<lambda>i. for_each (py_range_from (- 1) 2) (neighbor_step s board rows cols r c i)) 0)"

subsection \<open>next_board_state\<close>

text \<open>The body of the inner loop for the cell \<open>(r, c)\<close>; the state is the store.\<close>

definition update_cell :: "nat \<Rightarrow> nat \<Rightarrow> nat \<Rightarrow> nat \<Rightarrow> store \<Rightarrow> py_error + store" where
  "update_cell board new_board r c s =
     (case count_live_neighbors s board (int r) (int c) of
        Inl e \<Rightarrow> Inl e
      | Inr live_neighbors \<Rightarrow>
          (case cell_read s board (int r) (int c) of
             Inl e \<Rightarrow> Inl e
           | Inr cell_state \<Rightarrow>
               if cell_state = 1 then
                 (if live_neighbors < 2 \<or> live_neighbors > 3
                  then cell_write s new_board (int r) (int c) 0
                  else cell_write s new_board (int r) (int c) 1)
               else
                 (if live_neighbors = 3
                  then cell_write s new_board (int r) (int c) 1
                  else Inr s)))"

definition next_board_state :: "store \<Rightarrow> nat \<Rightarrow> py_error + (store \<times> nat)" where
  "next_board_state s board =
     (case board_dims s board of
        Inl e \<Rightarrow> Inl e
      | Inr (rows, cols) \<Rightarrow>
          (let (s1, new_board) = create_board s cols rows
           in case for_each (py_range rows)
                     (\<lambda>r. for_each (py_range cols) (update_cell board new_board r)) s1 of
                Inl e \<Rightarrow> Inl e
              | Inr s2 \<Rightarrow> Inr (s2, new_board)))"

subsection \<open>random_fill_board\<close>

text \<open>
  The pseudorandom source is the sequence \<open>rnd\<close> of the values that successive calls of
  \<^verbatim>\<open>random.random()\<close> return, with the number of values drawn so far in the state.
  A float is compared as the real number it stands for, which is how \<^verbatim>\<open><\<close> compares
  two finite floats.
\<close>

definition fill_cell ::
  "(nat \<Rightarrow> real) \<Rightarrow> real \<Rightarrow> nat \<Rightarrow> nat \<Rightarrow> nat \<Rightarrow> store \<times> nat \<Rightarrow> py_error + (store \<times> nat)" where
  "fill_cell rnd density board r c st =
     (case st of (s, drawn) \<Rightarrow>
        (case (if rnd drawn < density
               then cell_write s board (int r) (int c) 1
               else cell_write s board (int r) (int c) 0) of
           Inl e \<Rightarrow> Inl e
         | Inr s' \<Rightarrow> Inr (s', Suc drawn)))"

definition random_fill_board ::
  "(nat \<Rightarrow> real) \<Rightarrow> store \<times> nat \<Rightarrow> nat \<Rightarrow> real \<Rightarrow> py_error + (store \<times> nat)" where
  "random_fill_board rnd st board density =
     (case board_dims (fst st) board of
        Inl e \<Rightarrow> Inl e
      | Inr (rows, cols) \<Rightarrow>
          for_each (py_range rows)
            (\<lambda>r. for_each (py_range cols) (fill_cell rnd density board r)) st)"

subsection \<open>Text: str.strip, str.split, int and str\<close>

text \<open>
  Text is a list of 8-bit characters, so pattern files are taken to be ASCII. The
  characters that \<^verbatim>\<open>str.strip()\<close> and \<^verbatim>\<open>int()\<close> treat as whitespace are, in ASCII,
  the codes 9 to 13, 28 to 31 and the space.
\<close>

definition LF :: char where
  "LF = CHR 0x0A"

definition CR :: char where
  "CR = CHR 0x0D"

definition is_space :: "char \<Rightarrow> bool" where
  "is_space ch \<longleftrightarrow>
     (let n = (of_char ch :: nat) in (9 \<le> n \<and> n \<le> 13) \<or> (28 \<le> n \<and> n \<le> 32))"

definition str_strip :: "string \<Rightarrow> string" where
  "str_strip t = rev (dropWhile is_space (rev (dropWhile is_space t)))"

text \<open>\<^verbatim>\<open>t.split(sep)\<close> for a one-character separator: never an empty list.\<close>

fun str_split :: "char \<Rightarrow> string \<Rightarrow> string list" where
  "str_split sep [] = [[]]"
| "str_split sep (ch # rest) =
     (if ch = sep then [] # str_split sep rest
      else (case str_split sep rest of
              [] \<Rightarrow> [[ch]]
            | part # parts \<Rightarrow> (ch # part) # parts))"

definition is_digit :: "char \<Rightarrow> bool" where
  "is_digit ch \<longleftrightarrow> 48 \<le> (of_char ch :: nat) \<and> (of_char ch :: nat) \<le> 57"

definition digit_val :: "char \<Rightarrow> nat" where
  "digit_val ch = of_char ch - 48"

text \<open>
  The digits of a decimal literal read from the left. An underscore is accepted
  between two digits only; the caller has checked that the first character is a digit.
\<close>

fun digits_value :: "nat \<Rightarrow> string \<Rightarrow> nat option" where
  "digits_value acc [] = Some acc"
| "digits_value acc (ch # rest) =
     (if is_digit ch then digits_value (10 * acc + digit_val ch) rest
      else if ch = CHR ''_'' then
        (case rest of
           [] \<Rightarrow> None
         | d # _ \<Rightarrow> if is_digit d then digits_value acc rest else None)
      else None)"

text \<open>
  \<^verbatim>\<open>int(t)\<close> for a string: surrounding whitespace is dropped, then an optional sign and a
  decimal literal must remain. \<open>None\<close> stands for the \<^verbatim>\<open>ValueError\<close>.
\<close>

definition py_int :: "string \<Rightarrow> int option" where
  "py_int t =
     (let u = str_strip t;
          negative = (u \<noteq> [] \<and> hd u = CHR ''-'');
          body = (if u \<noteq> [] \<and> (hd u = CHR ''-'' \<or> hd u = CHR ''+'') then tl u else u)
      in if body \<noteq> [] \<and> is_digit (hd body) then
           (case digits_value 0 body of
              None \<Rightarrow> None
            | Some n \<Rightarrow> Some (if negative then - int n else int n))
         else None)"

text \<open>\<^verbatim>\<open>str(n)\<close> for a natural number, as the f-string of \<^verbatim>\<open>save_pattern\<close> formats it.\<close>

definition digit_char :: "nat \<Rightarrow> char" where
  "digit_char d = char_of (48 + d)"

fun nat_str :: "nat \<Rightarrow> string" where
  "nat_str n = (if n < 10 then [digit_char n] else nat_str (n div 10) @ [digit_char (n mod 10)])"

subsection \<open>Pattern files\<close>

text \<open>
  The file system maps a path to the text of the file there; a path without an entry
  has no file. Paths are POSIX paths, and a write to a path whose directory part is
  not empty succeeds (permissions and devices are outside the model).
\<close>

type_synonym filesystem = "string \<Rightarrow> string option"

text \<open>\<^verbatim>\<open>os.path.dirname\<close>\<close>

definition dirname :: "string \<Rightarrow> string" where
  "dirname p =
     (let h = rev (dropWhile (\<lambda>ch. ch \<noteq> CHR ''/'') (rev p))
      in if h \<noteq> [] \<and> \<not> list_all (\<lambda>ch. ch = CHR ''/'') h
         then rev (dropWhile (\<lambda>ch. ch = CHR ''/'') (rev h))
         else h)"

text \<open>
  Reading in text mode: \<^verbatim>\<open>\r\n\<close> and \<^verbatim>\<open>\r\<close> become \<^verbatim>\<open>\n\<close>, and iterating over the file
  gives its lines, each with its \<^verbatim>\<open>\n\<close> (the last line may have none).
\<close>

fun translate_newlines :: "string \<Rightarrow> string" where
  "translate_newlines [] = []"
| "translate_newlines [ch] = [if ch = CR then LF else ch]"
| "translate_newlines (ch # d # rest) =
     (if ch = CR then
        (if d = LF then LF # translate_newlines rest else LF # translate_newlines (d # rest))
      else ch # translate_newlines (d # rest))"

fun file_lines :: "string \<Rightarrow> string list" where
  "file_lines [] = []"
| "file_lines (ch # rest) =
     (if ch = LF then [ch] # file_lines rest
      else (case file_lines rest of
              [] \<Rightarrow> [[ch]]
            | line # lines \<Rightarrow> (ch # line) # lines))"

subsection \<open>save_pattern\<close>

text \<open>The body of the inner loop for the cell \<open>(r, c)\<close>; the state is the text written.\<close>

definition save_cell :: "store \<Rightarrow> nat \<Rightarrow> nat \<Rightarrow> nat \<Rightarrow> string \<Rightarrow> py_error + string" where
  "save_cell s board r c written =
     (case cell_read s board (int r) (int c) of
        Inl e \<Rightarrow> Inl e
      | Inr v \<Rightarrow>
          Inr (if v = 1 then written @ nat_str c @ '','' @ nat_str r @ [LF] else written))"

text \<open>
  \<^verbatim>\<open>os.makedirs\<close> raises \<^verbatim>\<open>FileNotFoundError\<close> on the empty directory name of a path
  without a slash. The result is the file system after the call and what was printed.
  What a save that raises leaves on disk is not modelled.
\<close>

definition save_pattern ::
  "filesystem \<Rightarrow> store \<Rightarrow> nat \<Rightarrow> string \<Rightarrow> py_error + (filesystem \<times> string list)" where
  "save_pattern fs s board filename =
     (if dirname filename = [] then Inl FileNotFoundError
      else
        (case board_dims s board of
           Inl e \<Rightarrow> Inl e
         | Inr (rows, cols) \<Rightarrow>
             (case for_each (py_range rows)
                     (\<lambda>r. for_each (py_range cols) (save_cell s board r))
                     (''# Pattern: Custom saved pattern'' @ [LF]) of
                Inl e \<Rightarrow> Inl e
              | Inr written \<Rightarrow>
                  Inr (fs(filename \<mapsto> written), [''Pattern saved to '' @ filename]))))"

subsection \<open>load_pattern\<close>

text \<open>
  \<^verbatim>\<open>x, y = map(int, line.split(','))\<close>: a \<^verbatim>\<open>ValueError\<close> (here \<open>None\<close>) unless the line has
  exactly two parts and \<^verbatim>\<open>int\<close> accepts both.
\<close>

definition parse_line :: "string \<Rightarrow> (int \<times> int) option" where
  "parse_line line =
     (case map py_int (str_split (CHR '','') line) of
        [Some x, Some y] \<Rightarrow> Some (x, y)
      | _ \<Rightarrow> None)"

text \<open>
  The body of the loop over the lines of the file; the state is the store and the lines
  printed so far.
\<close>

definition load_line ::
  "nat \<Rightarrow> int \<Rightarrow> int \<Rightarrow> string \<Rightarrow> store \<times> string list \<Rightarrow> py_error + (store \<times> string list)" where
  "load_line new_board board_width board_height raw st =
     (case st of (s, printed) \<Rightarrow>
        (let line = str_strip raw
         in if line = [] \<or> hd line = CHR ''#'' then Inr (s, printed)
            else
              (case parse_line line of
                 None \<Rightarrow>
                   Inr (s, printed @ [''Warning: Could not parse line in pattern file: '' @ line])
               | Some (x, y) \<Rightarrow>
                   if 0 \<le> y \<and> y < board_height \<and> 0 \<le> x \<and> x < board_width then
                     (case cell_write s new_board y x 1 of
                        Inl e \<Rightarrow> Inl e
                      | Inr s' \<Rightarrow> Inr (s', printed))
                   else Inr (s, printed))))"

text \<open>
  The result is the store, the address of the board returned and the lines printed.
  \<^verbatim>\<open>FileNotFoundError\<close> is caught: the function prints and returns a second new board.
\<close>

definition load_pattern ::
  "filesystem \<Rightarrow> store \<Rightarrow> string \<Rightarrow> int \<Rightarrow> int \<Rightarrow> py_error + (store \<times> nat \<times> string list)" where
  "load_pattern fs s filename board_width board_height =
     (let (s1, new_board) = create_board s board_width board_height
      in case fs filename of
           None \<Rightarrow>
             (let (s2, empty_board) = create_board s1 board_width board_height
              in Inr (s2, empty_board, [''Error: Pattern file not found: '' @ filename]))
         | Some content \<Rightarrow>
             (case for_each (file_lines (translate_newlines content))
                     (load_line new_board board_width board_height) (s1, []) of
                Inl e \<Rightarrow> Inl e
              | Inr (s2, printed) \<Rightarrow>
                  Inr (s2, new_board, printed @ [''Pattern loaded from '' @ filename])))"

subsection \<open>The rule of the game, stated on the contents of a board\<close>

text \<open>
  The notions the claims are stated with. A cell \<open>(r, c)\<close> is in the grid when it lies in
  \<open>[0, height) \<times> [0, width)\<close>, and alive when it is in the grid and holds 1. The neighbours
  of a cell are the eight offsets in \<open>{-1, 0, 1} \<times> {-1, 0, 1}\<close> other than \<open>(0, 0)\<close>.
\<close>

definition in_grid :: "int list list \<Rightarrow> int \<Rightarrow> int \<Rightarrow> bool" where
  "in_grid B r c \<longleftrightarrow> 0 \<le> r \<and> r < int (length B) \<and> 0 \<le> c \<and> c < int (length (hd B))"

definition alive :: "int list list \<Rightarrow> int \<Rightarrow> int \<Rightarrow> bool" where
  "alive B r c \<longleftrightarrow> in_grid B r c \<and> B ! nat r ! nat c = 1"

definition neighbor_offsets :: "(int \<times> int) list" where
  "neighbor_offsets = [(- 1, - 1), (- 1, 0), (- 1, 1), (0, - 1), (0, 1), (1, - 1), (1, 0), (1, 1)]"

definition live_neighbor_count :: "int list list \<Rightarrow> int \<Rightarrow> int \<Rightarrow> int" where
  "live_neighbor_count B r c =
     int (length (filter (\<lambda>(i, j). alive B (r + i) (c + j)) neighbor_offsets))"

text \<open>The next value of a cell under the rule B3/S23, and the next generation.\<close>

definition next_cell :: "int list list \<Rightarrow> nat \<Rightarrow> nat \<Rightarrow> int" where
  "next_cell B r c =
     (let n = live_neighbor_count B (int r) (int c)
      in if B ! r ! c = 1 then (if n = 2 \<or> n = 3 then 1 else 0)
         else (if n = 3 then 1 else 0))"

definition next_board :: "int list list \<Rightarrow> int list list" where
  "next_board B = map (\<lambda>r. map (\<lambda>c. next_cell B r c) [0..<length (hd B)]) [0..<length B]"

text \<open>
  The new board while the loops of \<^verbatim>\<open>next_board_state\<close> run: the cells before \<open>(r, c)\<close>
  in row-major order hold their next value, the others still 0.
\<close>

definition partial_next :: "int list list \<Rightarrow> nat \<Rightarrow> nat \<Rightarrow> int list list" where
  "partial_next B r c =
     map (\<lambda>r'. map (\<lambda>c'. if r' < r \<or> (r' = r \<and> c' < c) then next_cell B r' c' else 0)
                 [0..<length (hd B)])
       [0..<length B]"

text \<open>
  The store \<open>s\<close> after \<^verbatim>\<open>create_board\<close> has added a board of \<open>h\<close> rows whose rows now hold \<open>X\<close>.
\<close>

definition with_new_rows :: "store \<Rightarrow> nat \<Rightarrow> int list list \<Rightarrow> store" where
  "with_new_rows s h X =
     \<lparr>row_objs = row_objs s @ X,
      grid_objs = grid_objs s @ [[length (row_objs s)..<length (row_objs s) + h]]\<rparr>"

subsection \<open>Example stores\<close>

text \<open>A store holding one 3 by 3 board, the vertical blinker.\<close>

definition blinker :: store where
  "blinker = \<lparr>row_objs = [[0, 1, 0], [0, 1, 0], [0, 1, 0]], grid_objs = [[0, 1, 2]]\<rparr>"

text \<open>A store holding one 2 by 2 board whose only live cell is the corner \<open>(0, 0)\<close>.\<close>

definition corner :: store where
  "corner = \<lparr>row_objs = [[1, 0], [0, 0]], grid_objs = [[0, 1]]\<rparr>"

text \<open>
  A board read the way the rule reads it: a cell that holds 1 is 1, any other value is 0.
\<close>

definition as_binary :: "int list list \<Rightarrow> int list list" where
  "as_binary B = map (map (\<lambda>v. if v = 1 then 1 else 0)) B"

text \<open>
  A store holding one 2 by 3 board with values other than 0 and 1, and a store holding
  the same board with those values replaced by 0.
\<close>

definition odd_values :: store where
  "odd_values = \<lparr>row_objs = [[2, 1, - 1], [1, 7, 1]], grid_objs = [[0, 1]]\<rparr>"

definition odd_values_binary :: store where
  "odd_values_binary = \<lparr>row_objs = [[0, 1, 0], [1, 0, 1]], grid_objs = [[0, 1]]\<rparr>"

section \<open>Lemmas\<close>

subsection \<open>Properties of create_board\<close>

lemma alloc_rows_eq:
  "alloc_rows s width is =
     (s\<lparr>row_objs := row_objs s @ replicate (length is) (replicate (nat width) 0)\<rparr>,
      [length (row_objs s)..<length (row_objs s) + length is])"
proof (induction "is" arbitrary: s)
  case Nil
  then show ?case by simp
next
  case (Cons i rest)
  have "[length (row_objs s)..<length (row_objs s) + Suc (length rest)]
      = length (row_objs s) # [Suc (length (row_objs s))..<Suc (length (row_objs s)) + length rest]"
    using upt_conv_Cons [of "length (row_objs s)" "length (row_objs s) + Suc (length rest)"]
    by simp
  then show ?case
    by (simp add: Cons.IH new_row_def py_range_def map_replicate_const
        replicate_append_same)
qed

lemma create_board_eq:
  "create_board s width height =
     (\<lparr>row_objs = row_objs s @ replicate (nat height) (replicate (nat width) 0),
       grid_objs = grid_objs s
         @ [[length (row_objs s)..<length (row_objs s) + nat height]]\<rparr>,
      length (grid_objs s))"
  by (simp add: create_board_def alloc_rows_eq new_grid_def py_range_def)

lemma board_of_create_board:
  "board_of (fst (create_board s width height)) (snd (create_board s width height))
     = replicate (nat height) (replicate (nat width) 0)"
  by (rule nth_equalityI) (simp_all add: create_board_eq board_of_def nth_append)

subsection \<open>Reading a rectangular board\<close>

lemma list_getitem_in_range:
  "0 \<le> i \<Longrightarrow> i < int (length xs) \<Longrightarrow> list_getitem xs i = Inr (xs ! nat i)"
  by (simp add: list_getitem_def Let_def)

lemma list_setitem_in_range:
  "0 \<le> i \<Longrightarrow> i < int (length xs) \<Longrightarrow> list_setitem xs i v = Inr (xs[nat i := v])"
  by (simp add: list_setitem_def Let_def)

lemma rectangularD:
  assumes "rectangular B"
  shows "B \<noteq> []" and "r < length B \<Longrightarrow> length (B ! r) = length (hd B)"
  using assms by (auto simp: rectangular_def list_all_length)

lemma board_of_length: "length (board_of s g) = length (grid_objs s ! g)"
  by (simp add: board_of_def)

lemma board_of_nth:
  "r < length (grid_objs s ! g) \<Longrightarrow> board_of s g ! r = row_objs s ! (grid_objs s ! g ! r)"
  by (simp add: board_of_def)

lemma board_dims_rectangular:
  assumes "rectangular (board_of s g)"
  shows "board_dims s g = Inr (int (length (board_of s g)), int (length (hd (board_of s g))))"
proof -
  have ne: "grid_objs s ! g \<noteq> []"
    using rectangularD(1) [OF assms] by (simp add: board_of_def)
  have len: "length (board_of s g) = length (grid_objs s ! g)"
    by (rule board_of_length)
  have "list_getitem (grid_objs s ! g) 0 = Inr (grid_objs s ! g ! 0)"
    using ne by (simp add: list_getitem_in_range)
  moreover have "hd (board_of s g) = row_objs s ! (grid_objs s ! g ! 0)"
    using ne by (simp add: board_of_def hd_map hd_conv_nth)
  ultimately show ?thesis
    by (simp add: board_dims_def len)
qed

lemma cell_read_in_grid:
  assumes "rectangular (board_of s g)" and "in_grid (board_of s g) r c"
  shows "cell_read s g r c = Inr (board_of s g ! nat r ! nat c)"
proof -
  have r: "0 \<le> r" "r < int (length (grid_objs s ! g))" "nat r < length (grid_objs s ! g)"
    and c: "0 \<le> c" "nat c < length (hd (board_of s g))"
    using assms(2) by (auto simp add: in_grid_def board_of_length)
  have "length (board_of s g ! nat r) = length (hd (board_of s g))"
    using rectangularD(2) [OF assms(1)] r(3) by (simp add: board_of_length)
  then have "c < int (length (row_objs s ! (grid_objs s ! g ! nat r)))"
    using r(3) c by (simp add: board_of_nth)
  then show ?thesis
    using r c(1) by (simp add: cell_read_def board_of_nth list_getitem_in_range)
qed

lemma neighbor_step_eq:
  assumes "rectangular (board_of s g)"
  shows "neighbor_step s g (int (length (board_of s g))) (int (length (hd (board_of s g)))) r c i j n
    = Inr (n + of_bool (\<not> (i = 0 \<and> j = 0) \<and> alive (board_of s g) (r + i) (c + j)))"
proof (cases "in_grid (board_of s g) (r + i) (c + j)")
  case True
  from cell_read_in_grid [OF assms True] True show ?thesis
    by (simp add: neighbor_step_def alive_def in_grid_def Let_def)
next
  case False
  then show ?thesis
    by (auto simp add: neighbor_step_def alive_def in_grid_def Let_def)
qed

lemma py_range_from_offsets: "py_range_from (- 1) 2 = [- 1, 0, 1]"
  by (simp add: py_range_from_def upto.simps)

lemma length_filter_of_bool:
  "int (length (filter P xs)) = sum_list (map (\<lambda>x. of_bool (P x)) xs)"
  by (induction xs) simp_all

lemma count_live_neighbors_eq:
  assumes "rectangular (board_of s g)"
  shows "count_live_neighbors s g r c = Inr (live_neighbor_count (board_of s g) r c)"
  by (simp add: count_live_neighbors_def board_dims_rectangular [OF assms]
      py_range_from_offsets neighbor_step_eq [OF assms] live_neighbor_count_def
      neighbor_offsets_def length_filter_of_bool)

lemma for_each_upt_from:
  assumes "\<And>i. k \<le> i \<Longrightarrow> i < n \<Longrightarrow> body i (f i) = Inr (f (Suc i))" and "k \<le> n"
  shows "for_each [k..<n] body (f k) = Inr (f n)"
  using assms
proof (induction "n - k" arbitrary: k)
  case 0
  then show ?case by simp
next
  case (Suc d)
  then have "k < n" by simp
  then have "[k..<n] = k # [Suc k..<n]"
    by (rule upt_conv_Cons)
  moreover have "body k (f k) = Inr (f (Suc k))"
    using Suc.prems(1) \<open>k < n\<close> by simp
  moreover have "for_each [Suc k..<n] body (f (Suc k)) = Inr (f n)"
    using Suc.hyps(2) Suc.prems(1) \<open>k < n\<close> by (intro Suc.hyps(1)) simp_all
  ultimately show ?case by simp
qed

lemma for_each_upt:
  assumes "\<And>i. i < n \<Longrightarrow> body i (f i) = Inr (f (Suc i))"
  shows "for_each [0..<n] body (f 0) = Inr (f n)"
  using for_each_upt_from [of 0 n body f] assms by simp

lemma valid_boardD:
  assumes "valid_board s g"
  shows "g < length (grid_objs s)"
    and "r < length (grid_objs s ! g) \<Longrightarrow> grid_objs s ! g ! r < length (row_objs s)"
  using assms by (auto simp: valid_board_def list_all_length)

lemma board_of_with_new_rows:
  assumes "valid_board s g"
  shows "board_of (with_new_rows s h X) g = board_of s g"
proof -
  have "(grid_objs s @ [[length (row_objs s)..<length (row_objs s) + h]]) ! g = grid_objs s ! g"
    using valid_boardD(1) [OF assms] by (simp add: nth_append)
  moreover have "(row_objs s @ X) ! a = row_objs s ! a" if "a \<in> set (grid_objs s ! g)" for a
    using that assms by (auto simp: valid_board_def list_all_iff nth_append)
  ultimately show ?thesis
    by (simp add: board_of_def with_new_rows_def)
qed

lemma cell_write_new_rows:
  assumes "r < h" and "length X = h" and "c < length (X ! r)"
  shows "cell_write (with_new_rows s h X) (length (grid_objs s)) (int r) (int c) v
    = Inr (with_new_rows s h (X[r := (X ! r)[c := v]]))"
  using assms
  by (simp add: cell_write_def with_new_rows_def list_getitem_in_range
      list_setitem_in_range list_update_append)

lemma update_cell_new_rows:
  assumes "valid_board s g" and "rectangular (board_of s g)"
    and "r < length (board_of s g)" and "c < length (hd (board_of s g))"
    and "length X = length (board_of s g)" and "length (X ! r) = length (hd (board_of s g))"
    and "X ! r ! c = 0"
  shows "update_cell g (length (grid_objs s)) r c (with_new_rows s (length (board_of s g)) X)
    = Inr (with_new_rows s (length (board_of s g)) (X[r := (X ! r)[c := next_cell (board_of s g) r c]]))"
proof -
  let ?h = "length (board_of s g)"
  let ?s = "with_new_rows s ?h X"
  have B: "board_of ?s g = board_of s g"
    by (rule board_of_with_new_rows [OF assms(1)])
  have rect: "rectangular (board_of ?s g)"
    using assms(2) by (simp add: B)
  have cnt: "count_live_neighbors ?s g (int r) (int c)
      = Inr (live_neighbor_count (board_of s g) (int r) (int c))"
    using count_live_neighbors_eq [OF rect] by (simp add: B)
  have "in_grid (board_of ?s g) (int r) (int c)"
    using assms(3,4) by (simp add: B in_grid_def)
  from cell_read_in_grid [OF rect this]
  have rd: "cell_read ?s g (int r) (int c) = Inr (board_of s g ! r ! c)"
    by (simp add: B)
  have wr: "cell_write ?s (length (grid_objs s)) (int r) (int c) v
      = Inr (with_new_rows s ?h (X[r := (X ! r)[c := v]]))" for v
    using assms(3,4,5,6) by (intro cell_write_new_rows) simp_all
  have same: "X[r := (X ! r)[c := 0]] = X"
    using assms(7) by (metis list_update_id)
  show ?thesis
    by (auto simp add: update_cell_def cnt rd wr next_cell_def Let_def same)
qed

lemma partial_next_length: "length (partial_next B r c) = length B"
  by (simp add: partial_next_def)

lemma partial_next_row_length:
  "r' < length B \<Longrightarrow> length (partial_next B r c ! r') = length (hd B)"
  by (simp add: partial_next_def)

lemma partial_next_nth:
  "r' < length B \<Longrightarrow> c' < length (hd B) \<Longrightarrow>
   partial_next B r c ! r' ! c'
     = (if r' < r \<or> (r' = r \<and> c' < c) then next_cell B r' c' else 0)"
  by (simp add: partial_next_def)

lemma partial_next_step:
  assumes "r < length B" and "c < length (hd B)"
  shows "(partial_next B r c)[r := (partial_next B r c ! r)[c := next_cell B r c]]
    = partial_next B r (Suc c)"
proof (rule nth_equalityI)
  show "length ((partial_next B r c)[r := (partial_next B r c ! r)[c := next_cell B r c]])
      = length (partial_next B r (Suc c))"
    by (simp add: partial_next_length)
next
  fix i
  assume "i < length ((partial_next B r c)[r := (partial_next B r c ! r)[c := next_cell B r c]])"
  then have i: "i < length B"
    by (simp add: partial_next_length)
  show "(partial_next B r c)[r := (partial_next B r c ! r)[c := next_cell B r c]] ! i
      = partial_next B r (Suc c) ! i"
  proof (rule nth_equalityI)
    show "length ((partial_next B r c)[r := (partial_next B r c ! r)[c := next_cell B r c]] ! i)
        = length (partial_next B r (Suc c) ! i)"
      using i assms(1) by (simp add: nth_list_update partial_next_length partial_next_row_length)
  next
    fix k
    assume "k < length ((partial_next B r c)[r := (partial_next B r c ! r)[c := next_cell B r c]] ! i)"
    then have k: "k < length (hd B)"
      using i assms(1) by (simp add: nth_list_update partial_next_length partial_next_row_length split: if_splits)
    show "(partial_next B r c)[r := (partial_next B r c ! r)[c := next_cell B r c]] ! i ! k
        = partial_next B r (Suc c) ! i ! k"
      using i k assms
      by (auto simp add: nth_list_update partial_next_length partial_next_row_length
          partial_next_nth less_Suc_eq)
  qed
qed

lemma partial_next_row_done:
  "partial_next B r (length (hd B)) = partial_next B (Suc r) 0"
  by (auto simp add: partial_next_def less_Suc_eq)

lemma partial_next_start:
  "partial_next B 0 0 = replicate (length B) (replicate (length (hd B)) 0)"
  by (simp add: partial_next_def map_replicate_const)

lemma partial_next_done: "partial_next B (length B) 0 = next_board B"
  by (simp add: partial_next_def next_board_def)

lemma next_board_state_eq:
  assumes "valid_board s g" and "rectangular (board_of s g)"
  shows "next_board_state s g
    = Inr (with_new_rows s (length (board_of s g)) (next_board (board_of s g)), length (grid_objs s))"
proof -
  let ?B = "board_of s g"
  let ?h = "length ?B"
  let ?w = "length (hd ?B)"
  let ?st = "\<lambda>r c. with_new_rows s ?h (partial_next ?B r c)"
  have inner: "for_each [0..<?w] (update_cell g (length (grid_objs s)) r) (?st r 0)
      = Inr (?st (Suc r) 0)" if r: "r < ?h" for r
  proof -
    have "update_cell g (length (grid_objs s)) r c (?st r c) = Inr (?st r (Suc c))"
      if c: "c < ?w" for c
      using update_cell_new_rows [OF assms r c, of "partial_next ?B r c"] r c
      by (simp add: partial_next_length partial_next_row_length partial_next_nth
          partial_next_step)
    from for_each_upt [of ?w "update_cell g (length (grid_objs s)) r" "?st r", OF this]
    show ?thesis
      by (simp add: partial_next_row_done)
  qed
  have outer: "for_each [0..<?h]
      (\<lambda>r. for_each [0..<?w] (update_cell g (length (grid_objs s)) r)) (?st 0 0)
      = Inr (?st ?h 0)"
    by (rule for_each_upt [of ?h _ "\<lambda>r. ?st r 0"]) (rule inner)
  have start: "create_board s (int ?w) (int ?h) = (?st 0 0, length (grid_objs s))"
    by (simp add: create_board_eq with_new_rows_def partial_next_start)
  show ?thesis
    by (simp add: next_board_state_def board_dims_rectangular [OF assms(2)] start
        py_range_def outer partial_next_done)
qed

subsection \<open>The neighbour count as a set, and the board returned\<close>

lemma distinct_neighbor_offsets: "distinct neighbor_offsets"
  by (simp add: neighbor_offsets_def)

lemma set_neighbor_offsets:
  "set neighbor_offsets = {(i, j). i \<in> {- 1, 0, 1} \<and> j \<in> {- 1, 0, 1} \<and> (i, j) \<noteq> (0, 0)}"
  by (auto simp add: neighbor_offsets_def)

lemma live_neighbor_count_card:
  "live_neighbor_count B r c =
     int (card {(i, j). i \<in> {- 1, 0, 1} \<and> j \<in> {- 1, 0, 1} \<and> (i, j) \<noteq> (0, 0) \<and>
       0 \<le> r + i \<and> r + i < int (length B) \<and> 0 \<le> c + j \<and> c + j < int (length (hd B)) \<and>
       B ! nat (r + i) ! nat (c + j) = 1})"
proof -
  let ?P = "\<lambda>(i, j). alive B (r + i) (c + j)"
  have "{(i, j). i \<in> {- 1, 0, 1} \<and> j \<in> {- 1, 0, 1} \<and> (i, j) \<noteq> (0, 0) \<and>
       0 \<le> r + i \<and> r + i < int (length B) \<and> 0 \<le> c + j \<and> c + j < int (length (hd B)) \<and>
       B ! nat (r + i) ! nat (c + j) = 1} = set (filter ?P neighbor_offsets)"
    by (auto simp add: set_neighbor_offsets alive_def in_grid_def)
  moreover have "card (set (filter ?P neighbor_offsets)) = length (filter ?P neighbor_offsets)"
    by (rule distinct_card) (simp add: distinct_neighbor_offsets)
  ultimately show ?thesis
    by (simp add: live_neighbor_count_def)
qed

lemma board_of_next:
  "board_of (with_new_rows s (length B) (next_board B)) (length (grid_objs s)) = next_board B"
  by (rule nth_equalityI) (simp_all add: board_of_def with_new_rows_def next_board_def nth_append)

lemma next_board_nth:
  "r < length B \<Longrightarrow> c < length (hd B) \<Longrightarrow> next_board B ! r ! c = next_cell B r c"
  by (simp add: next_board_def)

lemma live_neighbor_count_corner:
  assumes "\<not> alive B 0 1" and "\<not> alive B 1 0" and "\<not> alive B 1 1"
  shows "live_neighbor_count B 0 0 = 0"
proof -
  have "\<not> alive B i j" if "i < 0 \<or> j < 0" for i j
    using that by (auto simp add: alive_def in_grid_def)
  then show ?thesis
    using assms by (simp add: live_neighbor_count_def neighbor_offsets_def)
qed

subsection \<open>Cell values other than 0 and 1\<close>

lemma as_binary_length: "length (as_binary B) = length B"
  by (simp add: as_binary_def)

lemma as_binary_nth:
  "r < length B \<Longrightarrow> as_binary B ! r = map (\<lambda>v. if v = 1 then 1 else 0) (B ! r)"
  by (simp add: as_binary_def)

lemma as_binary_hd_length: "B \<noteq> [] \<Longrightarrow> length (hd (as_binary B)) = length (hd B)"
  by (cases B) (simp_all add: as_binary_def)

lemma rectangular_as_binary:
  assumes "rectangular B"
  shows "rectangular (as_binary B)"
proof -
  have ne: "B \<noteq> []"
    by (rule rectangularD(1) [OF assms])
  have "length (as_binary B ! i) = length (hd (as_binary B))" if "i < length B" for i
  proof -
    have "length (as_binary B ! i) = length (B ! i)"
      by (simp add: as_binary_nth [OF that])
    also have "\<dots> = length (hd B)"
      by (rule rectangularD(2) [OF assms that])
    also have "\<dots> = length (hd (as_binary B))"
      by (simp add: as_binary_hd_length [OF ne])
    finally show ?thesis .
  qed
  moreover have "as_binary B \<noteq> []"
    using ne by (simp add: as_binary_def)
  ultimately show ?thesis
    by (simp add: rectangular_def list_all_length as_binary_length)
qed

lemma in_grid_as_binary: "B \<noteq> [] \<Longrightarrow> in_grid (as_binary B) r c = in_grid B r c"
  by (simp add: in_grid_def as_binary_length as_binary_hd_length)

lemma alive_as_binary:
  assumes "rectangular B"
  shows "alive (as_binary B) r c = alive B r c"
proof (cases "in_grid B r c")
  case True
  then have r: "nat r < length B" and "nat c < length (hd B)"
    by (auto simp add: in_grid_def)
  then have "nat c < length (B ! nat r)"
    by (simp add: rectangularD(2) [OF assms r])
  then have "as_binary B ! nat r ! nat c = (if B ! nat r ! nat c = 1 then 1 else 0)"
    by (simp add: as_binary_nth [OF r])
  then show ?thesis
    by (simp add: alive_def in_grid_as_binary [OF rectangularD(1) [OF assms]])
next
  case False
  then show ?thesis
    by (simp add: alive_def in_grid_as_binary [OF rectangularD(1) [OF assms]])
qed


lemma next_board_as_binary:
  assumes "rectangular B"
  shows "next_board (as_binary B) = next_board B"
proof -
  have ne: "B \<noteq> []"
    by (rule rectangularD(1) [OF assms])
  have n: "live_neighbor_count (as_binary B) r c = live_neighbor_count B r c" for r c
    by (simp add: live_neighbor_count_def alive_as_binary [OF assms])
  have v: "(as_binary B ! r ! c = 1) = (B ! r ! c = 1)"
    if "r < length B" "c < length (hd B)" for r c
    using alive_as_binary [OF assms, of "int r" "int c"] that
    by (simp add: alive_def in_grid_def as_binary_length as_binary_hd_length [OF ne])
  have "next_cell (as_binary B) r c = next_cell B r c"
    if "r < length B" "c < length (hd B)" for r c
    by (simp add: next_cell_def n v [OF that])
  then show ?thesis
    by (simp add: next_board_def as_binary_length as_binary_hd_length [OF ne])
qed

lemma next_board_binary:
  "\<forall>row \<in> set (next_board B). \<forall>v \<in> set row. v = 0 \<or> v = 1"
  by (auto simp add: next_board_def next_cell_def Let_def)

section \<open>The claims\<close>

subsection \<open>Grid creation\<close>

text \<open>
  Claim C7 says that grid creation fails with an InvalidDimension error whenever
  \<open>width \<le> 0\<close> or \<open>height \<le> 0\<close>. \<^verbatim>\<open>create_board\<close> has no such check: for width 0 and
  height 3 it returns a board of three empty rows.
\<close>

theorem create_board_nonpositive_counterexample:
  "create_board empty_store 0 3 = (\<lparr>row_objs = [[], [], []], grid_objs = [[0, 1, 2]]\<rparr>, 0)"
  by code_simp

text \<open>
  Claim C7, amended: for all integers \<open>width\<close> and \<open>height\<close>, \<^verbatim>\<open>create_board\<close> returns a
  new board object of \<open>max(height, 0)\<close> rows of \<open>max(width, 0)\<close> dead cells each; it never
  fails.
\<close>

theorem create_board_all_dead:
  "create_board s width height = (s', g) \<Longrightarrow>
     board_of s' g = replicate (nat height) (replicate (nat width) 0)
     \<and> g = length (grid_objs s) \<and> g < length (grid_objs s')"
  using board_of_create_board [of s width height] by (auto simp add: create_board_eq)

theorem create_board_all_dead_witness:
  "create_board empty_store 3 2 = (\<lparr>row_objs = [[0, 0, 0], [0, 0, 0]], grid_objs = [[0, 1]]\<rparr>, 0)
   \<and> board_of \<lparr>row_objs = [[0, 0, 0], [0, 0, 0]], grid_objs = [[0, 1]]\<rparr> 0 = [[0, 0, 0], [0, 0, 0]]"
proof -
  have h: "create_board empty_store 3 2
      = (\<lparr>row_objs = [[0, 0, 0], [0, 0, 0]], grid_objs = [[0, 1]]\<rparr>, 0)"
    by code_simp
  from create_board_all_dead [OF h] h show ?thesis
    by (simp add: numeral_2_eq_2 numeral_3_eq_3)
qed

subsection \<open>The rule engine\<close>

text \<open>
  Claim C1: for every rectangular grid, \<^verbatim>\<open>next_board_state\<close> returns a board in which
  every cell \<open>(r, c)\<close> follows B3/S23 with the count \<open>n\<close> that \<^verbatim>\<open>count_live_neighbors\<close>
  gives for it: a live cell (value 1) becomes 1 exactly when \<open>n\<close> is 2 or 3 and 0
  otherwise, a dead cell becomes 1 exactly when \<open>n\<close> is 3 and 0 otherwise.
\<close>

theorem next_board_state_rule:
  assumes "valid_board s g" and "rectangular (board_of s g)"
  shows "\<exists>s' g'. next_board_state s g = Inr (s', g') \<and>
    (\<forall>r < length (board_of s g). \<forall>c < length (hd (board_of s g)).
       \<exists>n. count_live_neighbors s g (int r) (int c) = Inr n \<and>
         board_of s' g' ! r ! c =
           (if board_of s g ! r ! c = 1 then (if n = 2 \<or> n = 3 then 1 else 0)
            else (if n = 3 then 1 else 0)))"
proof -
  let ?B = "board_of s g"
  let ?s' = "with_new_rows s (length ?B) (next_board ?B)"
  have "board_of ?s' (length (grid_objs s)) = next_board ?B"
    by (rule nth_equalityI) (simp_all add: board_of_def with_new_rows_def next_board_def nth_append)
  then show ?thesis
    by (simp add: next_board_state_eq [OF assms] count_live_neighbors_eq [OF assms(2)]
        next_board_def next_cell_def Let_def)
qed

theorem next_board_state_rule_witness:
  "\<exists>s' g'. next_board_state blinker 0 = Inr (s', g') \<and>
     count_live_neighbors blinker 0 1 0 = Inr 3 \<and> board_of s' g' ! 1 ! 0 = 1 \<and>
     count_live_neighbors blinker 0 0 1 = Inr 1 \<and> board_of s' g' ! 0 ! 1 = 0"
proof -
  have v: "valid_board blinker 0" and r: "rectangular (board_of blinker 0)"
    by (simp_all add: blinker_def valid_board_def rectangular_def board_of_def)
  have n1: "count_live_neighbors blinker 0 1 0 = Inr 3"
    and n2: "count_live_neighbors blinker 0 0 1 = Inr 1"
    by code_simp+
  from next_board_state_rule [OF v r] obtain s' g' where
    st: "next_board_state blinker 0 = Inr (s', g')" and
    cells: "\<forall>r < length (board_of blinker 0). \<forall>c < length (hd (board_of blinker 0)).
       \<exists>n. count_live_neighbors blinker 0 (int r) (int c) = Inr n \<and>
         board_of s' g' ! r ! c =
           (if board_of blinker 0 ! r ! c = 1 then (if n = 2 \<or> n = 3 then 1 else 0)
            else (if n = 3 then 1 else 0))"
    by blast
  have d: "length (board_of blinker 0) = 3" "length (hd (board_of blinker 0)) = 3"
    "board_of blinker 0 ! 1 ! 0 = 0" "board_of blinker 0 ! 0 ! 1 = 1"
    by (simp_all add: blinker_def board_of_def)
  from cells [rule_format, of 1 0] cells [rule_format, of 0 1] n1 n2 d st show ?thesis
    by auto
qed

subsection \<open>Neighbour counting\<close>

text \<open>
  Claim C2: the neighbour count of a cell \<open>(r, c)\<close> is the number of offsets \<open>(i, j)\<close> in
  \<open>{-1, 0, 1} \<times> {-1, 0, 1}\<close> other than \<open>(0, 0)\<close> for which \<open>(r + i, c + j)\<close> lies inside the
  grid and holds 1; positions outside the grid count as dead, with no wrap-around. So a
  lone live cell in the corner \<open>(0, 0)\<close>, whose three neighbours inside the grid are dead,
  is dead in the next generation.
\<close>

theorem count_live_neighbors_dead_boundary:
  assumes "valid_board s g" and "rectangular (board_of s g)"
  shows "count_live_neighbors s g r c =
      Inr (int (card {(i, j). i \<in> {- 1, 0, 1} \<and> j \<in> {- 1, 0, 1} \<and> (i, j) \<noteq> (0, 0) \<and>
        0 \<le> r + i \<and> r + i < int (length (board_of s g)) \<and>
        0 \<le> c + j \<and> c + j < int (length (hd (board_of s g))) \<and>
        board_of s g ! nat (r + i) ! nat (c + j) = 1}))
    \<and> (alive (board_of s g) 0 0 \<and> \<not> alive (board_of s g) 0 1 \<and>
        \<not> alive (board_of s g) 1 0 \<and> \<not> alive (board_of s g) 1 1 \<longrightarrow>
        (\<exists>s' g'. next_board_state s g = Inr (s', g') \<and> board_of s' g' ! 0 ! 0 = 0))"
proof (intro conjI impI)
  show "count_live_neighbors s g r c =
      Inr (int (card {(i, j). i \<in> {- 1, 0, 1} \<and> j \<in> {- 1, 0, 1} \<and> (i, j) \<noteq> (0, 0) \<and>
        0 \<le> r + i \<and> r + i < int (length (board_of s g)) \<and>
        0 \<le> c + j \<and> c + j < int (length (hd (board_of s g))) \<and>
        board_of s g ! nat (r + i) ! nat (c + j) = 1}))"
    using count_live_neighbors_eq [OF assms(2), of r c]
    by (simp only: live_neighbor_count_card)
next
  let ?B = "board_of s g"
  assume lone: "alive ?B 0 0 \<and> \<not> alive ?B 0 1 \<and> \<not> alive ?B 1 0 \<and> \<not> alive ?B 1 1"
  then have "live_neighbor_count ?B 0 0 = 0"
    by (intro live_neighbor_count_corner) simp_all
  moreover have "0 < length ?B" "0 < length (hd ?B)"
    using lone by (simp_all add: alive_def in_grid_def)
  ultimately have "next_board ?B ! 0 ! 0 = 0"
    using lone by (simp add: next_board_nth next_cell_def alive_def)
  then show "\<exists>s' g'. next_board_state s g = Inr (s', g') \<and> board_of s' g' ! 0 ! 0 = 0"
    by (simp add: next_board_state_eq [OF assms] board_of_next)
qed

theorem count_live_neighbors_dead_boundary_witness:
  "count_live_neighbors corner 0 0 0 = Inr 0 \<and>
   (\<exists>s' g'. next_board_state corner 0 = Inr (s', g') \<and> board_of s' g' ! 0 ! 0 = 0)"
proof -
  have v: "valid_board corner 0" and r: "rectangular (board_of corner 0)"
    by (simp_all add: corner_def valid_board_def rectangular_def board_of_def)
  have lone: "alive (board_of corner 0) 0 0 \<and> \<not> alive (board_of corner 0) 0 1 \<and>
      \<not> alive (board_of corner 0) 1 0 \<and> \<not> alive (board_of corner 0) 1 1"
    by (simp add: corner_def alive_def in_grid_def board_of_def)
  have "count_live_neighbors corner 0 0 0 = Inr 0"
    by code_simp
  with count_live_neighbors_dead_boundary [OF v r, of 0 0] lone show ?thesis
    by blast
qed

subsection \<open>The input board is left alone\<close>

text \<open>
  Claim C4: computing the next generation does not mutate its input. After
  \<^verbatim>\<open>next_board_state\<close> every list object that existed before the call holds what it held
  before, so the input board reads as before; the board returned is a new object whose
  rows are new, pairwise distinct objects, and it has the height and the width of the
  input.
\<close>

theorem next_board_state_frame:
  assumes "valid_board s g" and "rectangular (board_of s g)"
  shows "\<exists>s' g'. next_board_state s g = Inr (s', g') \<and>
    (\<forall>a < length (row_objs s). row_objs s' ! a = row_objs s ! a) \<and>
    (\<forall>b < length (grid_objs s). grid_objs s' ! b = grid_objs s ! b) \<and>
    board_of s' g = board_of s g \<and>
    length (grid_objs s) \<le> g' \<and> g' < length (grid_objs s') \<and>
    (\<forall>a \<in> set (grid_objs s' ! g'). length (row_objs s) \<le> a \<and> a < length (row_objs s')) \<and>
    distinct (grid_objs s' ! g') \<and>
    length (board_of s' g') = length (board_of s g) \<and>
    (\<forall>row \<in> set (board_of s' g'). length row = length (hd (board_of s g)))"
proof -
  let ?B = "board_of s g"
  let ?s' = "with_new_rows s (length ?B) (next_board ?B)"
  have "board_of ?s' g = ?B"
    by (rule board_of_with_new_rows [OF assms(1)])
  moreover have "length (next_board ?B) = length ?B"
    by (simp add: next_board_def)
  moreover have "\<forall>row \<in> set (next_board ?B). length row = length (hd ?B)"
    by (auto simp add: next_board_def)
  ultimately show ?thesis
    by (simp add: next_board_state_eq [OF assms] board_of_next)
      (simp add: with_new_rows_def nth_append)
qed

theorem next_board_state_frame_witness:
  "\<exists>s' g'. next_board_state blinker 0 = Inr (s', g') \<and>
     board_of s' 0 = [[0, 1, 0], [0, 1, 0], [0, 1, 0]] \<and> 1 \<le> g' \<and> length (board_of s' g') = 3"
proof -
  have v: "valid_board blinker 0" and r: "rectangular (board_of blinker 0)"
    by (simp_all add: blinker_def valid_board_def rectangular_def board_of_def)
  have "board_of blinker 0 = [[0, 1, 0], [0, 1, 0], [0, 1, 0]]" "length (grid_objs blinker) = 1"
    by (simp_all add: blinker_def board_of_def)
  with next_board_state_frame [OF v r] show ?thesis
    by auto
qed

subsection \<open>Cell values\<close>

text \<open>
  Claim C10: for every rectangular board, also one that holds values other than 0 and 1,
  every cell of the board that \<^verbatim>\<open>next_board_state\<close> returns is 0 or 1, and a value other
  than 1 is treated as dead, as a neighbour and as the cell itself: the result is the
  one computed from the board in which every value other than 1 has been replaced by 0.
\<close>

theorem next_board_state_binary:
  assumes "valid_board s g" and "rectangular (board_of s g)"
    and "valid_board t h" and "board_of t h = as_binary (board_of s g)"
  shows "\<exists>s' g' t' h'. next_board_state s g = Inr (s', g') \<and>
    next_board_state t h = Inr (t', h') \<and>
    (\<forall>row \<in> set (board_of s' g'). \<forall>v \<in> set row. v = 0 \<or> v = 1) \<and>
    board_of s' g' = board_of t' h'"
proof -
  let ?s' = "with_new_rows s (length (board_of s g)) (next_board (board_of s g))"
  let ?t' = "with_new_rows t (length (board_of t h)) (next_board (board_of t h))"
  have rt: "rectangular (board_of t h)"
    unfolding assms(4) by (rule rectangular_as_binary [OF assms(2)])
  have same: "next_board (board_of t h) = next_board (board_of s g)"
    unfolding assms(4) by (rule next_board_as_binary [OF assms(2)])
  have 1: "next_board_state s g = Inr (?s', length (grid_objs s))"
    by (rule next_board_state_eq [OF assms(1,2)])
  have 2: "next_board_state t h = Inr (?t', length (grid_objs t))"
    by (rule next_board_state_eq [OF assms(3) rt])
  have 3: "board_of ?s' (length (grid_objs s)) = next_board (board_of s g)"
    by (rule board_of_next)
  have 4: "board_of ?t' (length (grid_objs t)) = next_board (board_of s g)"
    using board_of_next [of t "board_of t h"] by (simp only: same)
  have 5: "\<forall>row \<in> set (board_of ?s' (length (grid_objs s))). \<forall>v \<in> set row. v = 0 \<or> v = 1"
    unfolding 3 by (rule next_board_binary)
  have 6: "board_of ?s' (length (grid_objs s)) = board_of ?t' (length (grid_objs t))"
    by (simp only: 3 4)
  from 1 2 5 6 show ?thesis
    by blast
qed

theorem next_board_state_binary_witness:
  "\<exists>s' g' t' h'. next_board_state odd_values 0 = Inr (s', g') \<and>
     next_board_state odd_values_binary 0 = Inr (t', h') \<and>
     board_of s' g' = board_of t' h' \<and> list_all (list_all (\<lambda>v. v = 0 \<or> v = 1)) (board_of s' g')"
proof -
  have v: "valid_board odd_values 0" and r: "rectangular (board_of odd_values 0)"
    and v': "valid_board odd_values_binary 0"
    and b: "board_of odd_values_binary 0 = as_binary (board_of odd_values 0)"
    by (simp_all add: odd_values_def odd_values_binary_def valid_board_def rectangular_def
        board_of_def as_binary_def)
  from next_board_state_binary [OF v r v' b] show ?thesis
    unfolding list_all_iff by blast
qed

end
